theory Spec2Isabelle
  imports Complex_Main
begin

section \<open>Route safety scorer\<close>

text \<open>
  The backend's \<^verbatim>\<open>calculateSafetyScore(route)\<close> reads \<^verbatim>\<open>route.legs[0].duration.value\<close>
  (seconds, as the Directions API reports them). A route is modelled with the fields the
  function reads. Durations are reals: JavaScript's doubles are idealised, which is exact
  for the whole-second values the provider returns.
\<close>

record leg_duration =
  duration_text :: string
  duration_value :: real

record leg =
  duration :: leg_duration

record route =
  legs :: "leg list"

datatype js_error = TypeError string

text \<open>
  \<^verbatim>\<open>route.legs[0]\<close> on an empty array is \<^verbatim>\<open>undefined\<close>, and reading \<^verbatim>\<open>.duration\<close> of it
  throws a TypeError.
\<close>

definition calculateSafetyScore :: "route \<Rightarrow> js_error + int" where
  "calculateSafetyScore r =
     (case legs r of
        [] \<Rightarrow> Inl (TypeError ''Cannot read properties of undefined'')
      | leg0 # _ \<Rightarrow>
          (let score = 75;
               durationMinutes = duration_value (duration leg0) / 60;
               score = (if durationMinutes < 15 then score + 10 else score);
               score = (if durationMinutes > 45 then score - 10 else score)
           in Inr (max 50 (min 95 score))))"

text \<open>The scorer as the specification words it, on the duration in seconds.\<close>

definition score_spec :: "real \<Rightarrow> int" where
  "score_spec seconds =
     max 50 (min 95 (75 + (if seconds < 15 * 60 then 10 else 0)
                        - (if seconds > 45 * 60 then 10 else 0)))"

definition route_of_seconds :: "real \<Rightarrow> route" where
  "route_of_seconds s = \<lparr>legs = [\<lparr>duration = \<lparr>duration_text = '''', duration_value = s\<rparr>\<rparr>]\<rparr>"

section \<open>Descriptor store: the Express handlers\<close>

text \<open>
  The request fields are typed as the face pipeline sends them: \<^verbatim>\<open>name\<close> a string,
  \<^verbatim>\<open>faceDescriptor\<close> an array of numbers, \<^verbatim>\<open>userId\<close> and \<^verbatim>\<open>imageUrl\<close> strings, each
  possibly absent (\<open>None\<close>). JavaScript's truthiness on these types: an absent value and the
  empty string are falsy, every array (the empty one too) is truthy.
\<close>

type_synonym descriptor = "real list"

definition truthy_string :: "string option \<Rightarrow> bool" where
  "truthy_string v = (case v of None \<Rightarrow> False | Some s \<Rightarrow> s \<noteq> [])"

definition truthy_array :: "'a list option \<Rightarrow> bool" where
  "truthy_array v = (case v of None \<Rightarrow> False | Some _ \<Rightarrow> True)"

text \<open>\<^verbatim>\<open>v || d\<close> on an optional string.\<close>

definition or_else :: "string option \<Rightarrow> string \<Rightarrow> string" where
  "or_else v d = (case v of None \<Rightarrow> d | Some s \<Rightarrow> if s = [] then d else s)"

text \<open>\<^verbatim>\<open>imageUrl || null\<close>.\<close>

definition or_null :: "string option \<Rightarrow> string option" where
  "or_null v = (if truthy_string v then v else None)"

record face =
  face_id :: string
  name :: string
  faceDescriptor :: descriptor
  userId :: string
  imageUrl :: "string option"
  timestamp :: nat

record register_body =
  req_name :: "string option"
  req_faceDescriptor :: "descriptor option"
  req_userId :: "string option"
  req_imageUrl :: "string option"

text \<open>
  Modelled from the spec: the durable store (MongoDB through Mongoose) is not part of the
  repository, and its operations are given the meaning of the store contract of section 4.1.
  Its collection is a list of records in insertion order; a query on \<^verbatim>\<open>userId\<close> keeps that
  user's records, \<^verbatim>\<open>sort({timestamp: -1})\<close> orders newest first, \<^verbatim>\<open>save\<close> appends one
  record, \<^verbatim>\<open>findByIdAndDelete\<close> removes the record with that id if there is one. A call to
  the driver may also throw (a lost connection, a value it cannot cast); \<open>driverFault\<close> is
  the message of the error it throws in this state, \<open>None\<close> when its calls complete. Every
  handler catches the error and answers 500.

  The server's state is \<^verbatim>\<open>mongoose.connection.readyState\<close>, the documents of the durable
  \<^verbatim>\<open>Face\<close> collection, the array \<^verbatim>\<open>inMemoryFaces\<close>, and that fault.
\<close>

record server =
  readyState :: nat
  collection :: "face list"
  inMemoryFaces :: "face list"
  driverFault :: "string option"

record registered_face =
  reg_id :: string
  reg_name :: string
  reg_timestamp :: nat

record face_entry =
  entry_id :: string
  entry_name :: string
  entry_timestamp :: nat
  entry_imageUrl :: "string option"

record descriptor_entry =
  desc_id :: string
  desc_name :: string
  desc_descriptor :: descriptor

datatype reply =
    RegisterReply string registered_face
  | FacesReply "face_entry list"
  | DescriptorsReply "descriptor_entry list"
  | DeleteReply string
  | ErrorReply string

record response =
  status :: nat
  success :: bool
  reply :: reply

definition ok :: "reply \<Rightarrow> response" where
  "ok r = \<lparr>status = 200, success = True, reply = r\<rparr>"

definition failed :: "nat \<Rightarrow> string \<Rightarrow> response" where
  "failed code msg = \<lparr>status = code, success = False, reply = ErrorReply msg\<rparr>"

text \<open>\<^verbatim>\<open>Date.now().toString()\<close>: the decimal digits of the clock reading.\<close>

fun toString :: "nat \<Rightarrow> string" where
  "toString n =
     (if n < 10 then [''0123456789'' ! n]
      else toString (n div 10) @ [''0123456789'' ! (n mod 10)])"

declare toString.simps [simp del]

text \<open>
  \<^verbatim>\<open>app.post('/api/faces/register')\<close>. \<open>now\<close> is the clock reading of the request and
  \<open>oid\<close> the \<^verbatim>\<open>_id\<close> the driver gives a new document.
\<close>

definition post_api_faces_register ::
  "nat \<Rightarrow> string \<Rightarrow> register_body \<Rightarrow> server \<Rightarrow> response \<times> server" where
  "post_api_faces_register now oid body srv =
     (if \<not> truthy_string (req_name body) \<or> \<not> truthy_array (req_faceDescriptor body)
      then (failed 400 ''Name and face descriptor are required'', srv)
      else if readyState srv = 1 then
        (case driverFault srv of
           Some msg \<Rightarrow> (failed 500 msg, srv)
         | None \<Rightarrow>
             (let newFace = \<lparr>face_id = oid,
                             name = the (req_name body),
                             faceDescriptor = the (req_faceDescriptor body),
                             userId = or_else (req_userId body) ''default_user'',
                             imageUrl = or_null (req_imageUrl body),
                             timestamp = now\<rparr>
              in (ok (RegisterReply ''Face registered successfully''
                        \<lparr>reg_id = face_id newFace, reg_name = name newFace,
                         reg_timestamp = timestamp newFace\<rparr>),
                  srv\<lparr>collection := collection srv @ [newFace]\<rparr>)))
      else
        (let newFace = \<lparr>face_id = toString now,
                        name = the (req_name body),
                        faceDescriptor = the (req_faceDescriptor body),
                        userId = or_else (req_userId body) ''default_user'',
                        imageUrl = or_null (req_imageUrl body),
                        timestamp = now\<rparr>
         in (ok (RegisterReply ''Face registered successfully (in-memory)''
                   \<lparr>reg_id = face_id newFace, reg_name = name newFace,
                    reg_timestamp = timestamp newFace\<rparr>),
             srv\<lparr>inMemoryFaces := inMemoryFaces srv @ [newFace]\<rparr>)))"

text \<open>
  The query \<^verbatim>\<open>userId ? { userId } : {}\<close> on the durable collection, and the same filter on
  the in-memory array.
\<close>

definition by_user :: "string option \<Rightarrow> face list \<Rightarrow> face list" where
  "by_user q fs = (if truthy_string q then filter (\<lambda>f. userId f = the q) fs else fs)"

text \<open>
  Modelled from the spec: \<^verbatim>\<open>sort({ timestamp: -1 })\<close> of the driver, newest first; records
  of equal timestamp keep their order.
\<close>

definition newest_first :: "face list \<Rightarrow> face list" where
  "newest_first fs = sort_key (\<lambda>f. - int (timestamp f)) fs"

definition entry_of :: "face \<Rightarrow> face_entry" where
  "entry_of f = \<lparr>entry_id = face_id f, entry_name = name f,
                 entry_timestamp = timestamp f, entry_imageUrl = imageUrl f\<rparr>"

definition descriptor_of :: "face \<Rightarrow> descriptor_entry" where
  "descriptor_of f = \<lparr>desc_id = face_id f, desc_name = name f,
                      desc_descriptor = faceDescriptor f\<rparr>"

text \<open>\<^verbatim>\<open>app.get('/api/faces')\<close>.\<close>

definition get_api_faces :: "string option \<Rightarrow> server \<Rightarrow> response" where
  "get_api_faces q srv =
     (if readyState srv = 1 then
        (case driverFault srv of
           Some msg \<Rightarrow> failed 500 msg
         | None \<Rightarrow> ok (FacesReply (map entry_of (newest_first (by_user q (collection srv))))))
      else ok (FacesReply (map entry_of (by_user q (inMemoryFaces srv)))))"

text \<open>\<^verbatim>\<open>app.get('/api/faces/descriptors')\<close>.\<close>

definition get_api_faces_descriptors :: "string option \<Rightarrow> server \<Rightarrow> response" where
  "get_api_faces_descriptors q srv =
     (if readyState srv = 1 then
        (case driverFault srv of
           Some msg \<Rightarrow> failed 500 msg
         | None \<Rightarrow> ok (DescriptorsReply (map descriptor_of (by_user q (collection srv)))))
      else ok (DescriptorsReply (map descriptor_of (by_user q (inMemoryFaces srv)))))"

text \<open>
  Modelled from the spec: \<^verbatim>\<open>Face.findByIdAndDelete\<close> of the driver removes the record with
  that id, and nothing when there is none.
\<close>

fun findByIdAndDelete :: "string \<Rightarrow> face list \<Rightarrow> face list" where
  "findByIdAndDelete i [] = []"
| "findByIdAndDelete i (f # fs) = (if face_id f = i then fs else f # findByIdAndDelete i fs)"

text \<open>\<^verbatim>\<open>app.delete('/api/faces/:id')\<close>.\<close>

definition delete_api_faces :: "string \<Rightarrow> server \<Rightarrow> response \<times> server" where
  "delete_api_faces i srv =
     (if readyState srv = 1 then
        (case driverFault srv of
           Some msg \<Rightarrow> (failed 500 msg, srv)
         | None \<Rightarrow> (ok (DeleteReply ''Face deleted successfully''),
                    srv\<lparr>collection := findByIdAndDelete i (collection srv)\<rparr>))
      else (ok (DeleteReply ''Face deleted successfully (in-memory)''),
            srv\<lparr>inMemoryFaces := filter (\<lambda>f. face_id f \<noteq> i) (inMemoryFaces srv)\<rparr>))"

text \<open>The store a request sees: the durable collection when connected, the array otherwise.\<close>

definition active_faces :: "server \<Rightarrow> face list" where
  "active_faces srv = (if readyState srv = 1 then collection srv else inMemoryFaces srv)"

definition memory_server :: "face list \<Rightarrow> server" where
  "memory_server fs = \<lparr>readyState = 0, collection = [], inMemoryFaces = fs, driverFault = None\<rparr>"

definition durable_server :: "face list \<Rightarrow> string option \<Rightarrow> server" where
  "durable_server fs fault =
     \<lparr>readyState = 1, collection = fs, inMemoryFaces = [], driverFault = fault\<rparr>"

section \<open>Descriptor matcher\<close>

text \<open>
  Modelled from the spec: the matcher is the \<^verbatim>\<open>FaceMatcher\<close> of the face-api.js library,
  which is not part of the repository; the component only constructs it and calls
  \<^verbatim>\<open>findBestMatch\<close>. Following section 4.2 of the specification, a matcher holds labelled
  reference descriptors (each label with one or more descriptors) and a distance threshold;
  \<open>findBestMatch\<close> takes the minimum Euclidean distance between the probe and every
  reference descriptor across all labels, returns the label of the closest reference when
  that distance is at most the threshold and the label \<^verbatim>\<open>unknown\<close> otherwise, and breaks
  ties in favour of the label met first. For an empty reference set section 8 gives the
  label \<^verbatim>\<open>unknown\<close> and no distance; the component builds no matcher over an empty list,
  and the result is \<open>None\<close> here. Descriptor entries are reals: the 32-bit floats
  of the library are idealised. The distance is taken over vectors of equal length, as the
  data model guarantees; \<open>zip\<close> pairs the entries.
\<close>

datatype LabeledFaceDescriptors =
  LabeledFaceDescriptors (ld_label: string) (ld_descriptors: "descriptor list")

record FaceMatcher =
  labeled :: "LabeledFaceDescriptors list"
  distanceThreshold :: real

datatype FaceMatch = FaceMatch (label: string) (distance: real)

text \<open>Modelled from the spec: the Euclidean distance over equal-length vectors.\<close>

definition euclideanDistance :: "descriptor \<Rightarrow> descriptor \<Rightarrow> real" where
  "euclideanDistance a b = sqrt (sum_list (map (\<lambda>(x, y). (x - y)\<^sup>2) (zip a b)))"

text \<open>
  Modelled from the spec: every reference descriptor with its label, in the order of the
  mapping.
\<close>

definition references :: "FaceMatcher \<Rightarrow> (string \<times> descriptor) list" where
  "references m =
     concat (map (\<lambda>ld. map (\<lambda>d. (ld_label ld, d)) (ld_descriptors ld)) (labeled m))"

text \<open>
  Modelled from the spec: the closest candidate, found from left to right; a later candidate
  replaces the best one only when it is strictly closer.
\<close>

fun closest :: "FaceMatch \<Rightarrow> FaceMatch list \<Rightarrow> FaceMatch" where
  "closest best [] = best"
| "closest best (c # cs) = closest (if distance c < distance best then c else best) cs"

text \<open>Modelled from the spec: the closest reference with its distance to the probe.\<close>

definition matchDescriptor :: "FaceMatcher \<Rightarrow> descriptor \<Rightarrow> FaceMatch option" where
  "matchDescriptor m probe =
     (case map (\<lambda>(l, d). FaceMatch l (euclideanDistance d probe)) (references m) of
        [] \<Rightarrow> None
      | c # cs \<Rightarrow> Some (closest c cs))"

text \<open>
  Modelled from the spec: the closest reference when its distance is at most the threshold,
  and the label \<^verbatim>\<open>unknown\<close> with that distance otherwise.
\<close>

definition findBestMatch :: "FaceMatcher \<Rightarrow> descriptor \<Rightarrow> FaceMatch option" where
  "findBestMatch m probe =
     map_option
       (\<lambda>best. if distance best \<le> distanceThreshold m then best
               else FaceMatch ''unknown'' (distance best))
       (matchDescriptor m probe)"

section \<open>Face pipeline controller: the FaceRecognition component\<close>

text \<open>
  The component's React state and refs. A ref is modelled by whether its \<^verbatim>\<open>current\<close> is
  set. \<open>notified\<close> records the calls of the \<^verbatim>\<open>addNotification\<close> prop (message and
  severity; the pictographs of the messages are left out).

  The functions of a function component are created anew at every render and see the state
  of that render. \<^verbatim>\<open>setInterval\<close> keeps calling the function it was given, so every
  firing of an interval runs \<^verbatim>\<open>detectFaces\<close> with the \<^verbatim>\<open>modelsLoaded\<close> and the
  \<^verbatim>\<open>faceMatcher\<close> of the render in which \<^verbatim>\<open>startDetection\<close> was called: a \<open>closure\<close>.
  Refs are shared by all renders. \<open>liveIntervals\<close> are the intervals the browser has not
  cleared, each with its handle and the closure it calls, \<open>timerSeq\<close> the last handle
  given out, \<open>inFlight\<close> the model calls whose promise is pending, oldest first, each
  with the matcher its closure holds, and \<open>canvas\<close> the labels last drawn (\<open>None\<close>
  after \<^verbatim>\<open>clearRect\<close> alone).
\<close>

record closure =
  cl_modelsLoaded :: bool
  cl_faceMatcher :: "FaceMatcher option"

record component =
  modelsLoaded :: bool
  isDetecting :: bool
  detectedFaces :: "descriptor list"
  registeredFaces :: "face_entry list"
  labeledDescriptors :: "LabeledFaceDescriptors list"
  faceMatcher :: "FaceMatcher option"
  registrationMode :: bool
  newPersonName :: string
  isLoading :: bool
  videoRef :: bool
  canvasRef :: bool
  streamRef :: bool
  detectionIntervalRef :: "nat option"
  liveIntervals :: "(nat \<times> closure) list"
  timerSeq :: nat
  inFlight :: "FaceMatcher option list"
  canvas :: "FaceMatch list option"
  notified :: "(string \<times> string) list"

definition notify :: "string \<Rightarrow> string \<Rightarrow> component \<Rightarrow> component" where
  "notify msg severity c = c\<lparr>notified := notified c @ [(msg, severity)]\<rparr>"

text \<open>
  \<^verbatim>\<open>loadFaceDescriptors\<close>: one \<^verbatim>\<open>LabeledFaceDescriptors\<close> per stored face, holding that
  face's single descriptor, and a new matcher with threshold 0.6; nothing is set when the
  server reports failure or returns no face. The requests are modelled as calls of the
  handlers: the transport delivers every request and response.
\<close>

definition loadFaceDescriptors :: "server \<Rightarrow> component \<Rightarrow> component" where
  "loadFaceDescriptors srv c =
     (let data = get_api_faces_descriptors (Some ''default_user'') srv
      in case reply data of
           DescriptorsReply faces \<Rightarrow>
             if success data \<and> length faces > 0 then
               (let lds = map (\<lambda>face. LabeledFaceDescriptors (desc_name face)
                                         [desc_descriptor face]) faces
                in c\<lparr>labeledDescriptors := lds,
                     faceMatcher := Some \<lparr>labeled = lds, distanceThreshold = 0.6\<rparr>\<rparr>)
             else c
         | _ \<Rightarrow> c)"

definition loadRegisteredFaces :: "server \<Rightarrow> component \<Rightarrow> component" where
  "loadRegisteredFaces srv c =
     (let c = c\<lparr>isLoading := True\<rparr>;
          data = get_api_faces (Some ''default_user'') srv;
          c = (case reply data of
                 FacesReply faces \<Rightarrow>
                   if success data then
                     loadFaceDescriptors srv
                       (notify (''Loaded '' @ toString (length faces) @ '' registered faces'')
                          ''success'' (c\<lparr>registeredFaces := faces\<rparr>))
                   else c
               | _ \<Rightarrow> c)
      in c\<lparr>isLoading := False\<rparr>)"

text \<open>
  \<^verbatim>\<open>String.prototype.trim\<close>. A \<open>char\<close> of a name stands for one UTF-16 code unit below
  256, so the strings of the model are the Latin-1 strings. Among these code units the white
  space and line terminators that \<^verbatim>\<open>trim\<close> strips are U+0009 to U+000D, U+0020 and the
  no-break space U+00A0; the other white space of Unicode lies above 255, outside the type.
\<close>

definition is_space :: "char \<Rightarrow> bool" where
  "is_space ch = (ch = CHR '' '' \<or> ch = CHR 0x09 \<or> ch = CHR 0x0A \<or> ch = CHR 0x0B
                  \<or> ch = CHR 0x0C \<or> ch = CHR 0x0D \<or> ch = CHR 0xA0)"

definition trim :: "string \<Rightarrow> string" where
  "trim s = rev (dropWhile is_space (rev (dropWhile is_space s)))"

text \<open>
  \<^verbatim>\<open>registerFace\<close>. \<open>detection\<close> is the result of the single-face detection on the current
  frame: the descriptor of the face found, or \<open>None\<close>.
\<close>

definition registerFace ::
  "nat \<Rightarrow> string \<Rightarrow> descriptor option \<Rightarrow> server \<times> component \<Rightarrow> server \<times> component" where
  "registerFace now oid detection sc =
     (let srv = fst sc; c = snd sc in
      if trim (newPersonName c) = [] then (srv, notify ''Please enter a name'' ''warning'' c)
      else if \<not> videoRef c \<or> \<not> modelsLoaded c then
        (srv, notify ''Camera not ready'' ''warning'' c)
      else
        (let c = notify ''Capturing face...'' ''info'' (c\<lparr>isLoading := True\<rparr>)
         in case detection of
              None \<Rightarrow>
                (srv, (notify ''No face detected. Please position your face clearly in the camera.''
                         ''warning'' c)\<lparr>isLoading := False\<rparr>)
            | Some captured \<Rightarrow>
                (let res = post_api_faces_register now oid
                             \<lparr>req_name = Some (newPersonName c),
                              req_faceDescriptor = Some captured,
                              req_userId = Some ''default_user'',
                              req_imageUrl = None\<rparr> srv;
                     data = fst res; srv' = snd res
                 in if success data then
                      (let c = notify (newPersonName c @ '' registered successfully'')
                                 ''success'' c;
                           c = c\<lparr>newPersonName := [], registrationMode := False\<rparr>;
                           c = loadRegisteredFaces srv' c
                       in (srv', c\<lparr>isLoading := False\<rparr>))
                    else
                      (srv', (notify ''Failed to register face'' ''error'' c)
                               \<lparr>isLoading := False\<rparr>))))"

text \<open>\<^verbatim>\<open>deleteFace\<close>.\<close>

definition deleteFace :: "string \<Rightarrow> server \<times> component \<Rightarrow> server \<times> component" where
  "deleteFace i sc =
     (let srv = fst sc; c = (snd sc)\<lparr>isLoading := True\<rparr>;
          res = delete_api_faces i srv;
          data = fst res; srv' = snd res;
          c = (if success data then
                 loadRegisteredFaces srv' (notify ''Person removed'' ''success'' c)
               else notify ''Failed to remove person'' ''error'' c)
      in (srv', c\<lparr>isLoading := False\<rparr>))"

text \<open>
  The recognition step of \<^verbatim>\<open>detectFaces\<close>: with a matcher, every detected descriptor is
  matched and its label drawn.
\<close>

definition recognise :: "FaceMatcher option \<Rightarrow> descriptor list \<Rightarrow> FaceMatch list" where
  "recognise fm detections =
     (case fm of
        None \<Rightarrow> []
      | Some m \<Rightarrow> List.map_filter (\<lambda>d. findBestMatch m d) detections)"

subsection \<open>The detection loop\<close>

text \<open>The closure of the functions created by the current render.\<close>

definition closure_of :: "component \<Rightarrow> closure" where
  "closure_of c = \<lparr>cl_modelsLoaded = modelsLoaded c, cl_faceMatcher = faceMatcher c\<rparr>"

text \<open>
  \<^verbatim>\<open>detectFaces\<close> is an async function: \<open>detectFaces_call\<close> is its part up to the
  \<^verbatim>\<open>await\<close> of the model call, \<open>detectFaces_resume\<close> the part that runs when the promise
  of the oldest pending call settles, with the detections or with a rejection (\<open>None\<close>),
  which is logged.
\<close>

definition detectFaces_call :: "closure \<Rightarrow> component \<Rightarrow> component" where
  "detectFaces_call cl c =
     (if \<not> videoRef c \<or> \<not> cl_modelsLoaded cl \<or> \<not> canvasRef c then c
      else c\<lparr>inFlight := inFlight c @ [cl_faceMatcher cl]\<rparr>)"

definition detectFaces_resume :: "descriptor list option \<Rightarrow> component \<Rightarrow> component" where
  "detectFaces_resume outcome c =
     (case inFlight c of
        [] \<Rightarrow> c
      | fm # pending \<Rightarrow>
          (let c = c\<lparr>inFlight := pending\<rparr>
           in case outcome of
                None \<Rightarrow> c
              | Some detections \<Rightarrow>
                  if length detections > 0 then
                    c\<lparr>detectedFaces := detections,
                      canvas := Some (recognise fm detections)\<rparr>
                  else c\<lparr>canvas := None\<rparr>))"

definition clearInterval :: "nat option \<Rightarrow> component \<Rightarrow> component" where
  "clearInterval h c =
     (case h of
        None \<Rightarrow> c
      | Some k \<Rightarrow> c\<lparr>liveIntervals := filter (\<lambda>p. fst p \<noteq> k) (liveIntervals c)\<rparr>)"

definition startDetection :: "component \<Rightarrow> component" where
  "startDetection c =
     (let c = c\<lparr>isDetecting := True\<rparr>;
          c = detectFaces_call (closure_of c) c;
          h = Suc (timerSeq c)
      in c\<lparr>timerSeq := h, liveIntervals := liveIntervals c @ [(h, closure_of c)],
           detectionIntervalRef := Some h\<rparr>)"

definition stopDetection :: "component \<Rightarrow> component" where
  "stopDetection c = clearInterval (detectionIntervalRef c) (c\<lparr>isDetecting := False\<rparr>)"

definition startWebcam :: "bool \<Rightarrow> component \<Rightarrow> component" where
  "startWebcam granted c =
     (if granted then
        (if videoRef c then notify ''Camera started'' ''success'' (c\<lparr>streamRef := True\<rparr>) else c)
      else notify ''Failed to access camera'' ''error'' c)"

definition stopWebcam :: "component \<Rightarrow> component" where
  "stopWebcam c =
     (if streamRef c then
        notify ''Camera stopped'' ''info''
          (clearInterval (detectionIntervalRef c) (c\<lparr>streamRef := False, isDetecting := False\<rparr>))
      else c)"

text \<open>
  What the event loop runs, one task at a time: a user action (which runs the functions of
  the current render), a firing of the interval with handle \<open>h\<close> (only a live interval
  fires, and it runs its closure), or the settling of the oldest pending model call.
\<close>

datatype event =
    StartWebcam bool
  | StopWebcam
  | StartDetection
  | StopDetection
  | Tick nat
  | Settle "descriptor list option"

fun step :: "event \<Rightarrow> component \<Rightarrow> component" where
  "step (StartWebcam granted) c = startWebcam granted c"
| "step StopWebcam c = stopWebcam c"
| "step StartDetection c = startDetection c"
| "step StopDetection c = stopDetection c"
| "step (Tick h) c =
     (case map_of (liveIntervals c) h of
        None \<Rightarrow> c
      | Some cl \<Rightarrow> detectFaces_call cl c)"
| "step (Settle outcome) c = detectFaces_resume outcome c"

fun run :: "event list \<Rightarrow> component \<Rightarrow> component" where
  "run [] c = c"
| "run (e # es) c = run es (step e c)"

definition mounted :: component where
  "mounted = \<lparr>modelsLoaded = True, isDetecting = False, detectedFaces = [],
              registeredFaces = [], labeledDescriptors = [], faceMatcher = None,
              registrationMode = False, newPersonName = [], isLoading = False,
              videoRef = True, canvasRef = True, streamRef = False,
              detectionIntervalRef = None, liveIntervals = [], timerSeq = 0,
              inFlight = [], canvas = None, notified = []\<rparr>"

section \<open>Notification bridge: App\<close>

text \<open>
  \<^verbatim>\<open>addNotification\<close> of \<^verbatim>\<open>App\<close>: the entry's id is the clock reading \<^verbatim>\<open>Date.now()\<close>, the
  message is spoken, and a timeout of 5000 ms is set whose callback removes the entries with
  that id. \<open>timeouts\<close> are the pending timeouts: the time each is due and the id its
  callback holds.
\<close>

record notification =
  notif_id :: nat
  message :: string
  notif_type :: string

record app =
  notifications :: "notification list"
  spoken :: "string list"
  timeouts :: "(nat \<times> nat) list"

definition addNotification :: "nat \<Rightarrow> string \<Rightarrow> string \<Rightarrow> app \<Rightarrow> app" where
  "addNotification now msg ty a =
     a\<lparr>notifications := notifications a @ [\<lparr>notif_id = now, message = msg, notif_type = ty\<rparr>],
       spoken := spoken a @ [msg],
       timeouts := timeouts a @ [(now + 5000, now)]\<rparr>"

text \<open>The timeout's callback.\<close>

definition expire :: "nat \<Rightarrow> app \<Rightarrow> app" where
  "expire i a = a\<lparr>notifications := filter (\<lambda>n. notif_id n \<noteq> i) (notifications a)\<rparr>"

text \<open>The first pending timeout that is due at time \<open>t\<close> fires.\<close>

fun fire_due :: "nat \<Rightarrow> (nat \<times> nat) list \<Rightarrow> ((nat \<times> nat) \<times> (nat \<times> nat) list) option" where
  "fire_due t [] = None"
| "fire_due t (p # ps) =
     (if fst p \<le> t then Some (p, ps)
      else map_option (\<lambda>r. (fst r, p # snd r)) (fire_due t ps))"

definition fire_timeout :: "nat \<Rightarrow> app \<Rightarrow> app" where
  "fire_timeout t a =
     (case fire_due t (timeouts a) of
        None \<Rightarrow> a
      | Some r \<Rightarrow> expire (snd (fst r)) (a\<lparr>timeouts := snd r\<rparr>))"

definition app_start :: app where
  "app_start = \<lparr>notifications = [], spoken = [], timeouts = []\<rparr>"

section \<open>Derived notions and sample data\<close>

text \<open>
  The store answers when it is the in-memory array or when the driver's calls complete.
  The component always asks for the faces of \<^verbatim>\<open>default_user\<close>; \<open>matcher_of\<close> is the
  matcher that \<^verbatim>\<open>loadFaceDescriptors\<close> builds from a list of faces, \<open>candidates\<close> the
  distance of every reference to a probe, and \<open>new_face\<close> the record a registration of the
  component stores.
\<close>

definition reachable_store :: "server \<Rightarrow> bool" where
  "reachable_store srv = (readyState srv \<noteq> 1 \<or> driverFault srv = None)"

definition user_faces :: "server \<Rightarrow> face list" where
  "user_faces srv = by_user (Some ''default_user'') (active_faces srv)"

definition matcher_of :: "face list \<Rightarrow> FaceMatcher" where
  "matcher_of fs =
     \<lparr>labeled = map (\<lambda>f. LabeledFaceDescriptors (name f) [faceDescriptor f]) fs,
      distanceThreshold = 0.6\<rparr>"

definition candidates :: "FaceMatcher \<Rightarrow> descriptor \<Rightarrow> FaceMatch list" where
  "candidates m probe = map (\<lambda>(l, d). FaceMatch l (euclideanDistance d probe)) (references m)"

definition new_face :: "nat \<Rightarrow> string \<Rightarrow> string \<Rightarrow> descriptor \<Rightarrow> server \<Rightarrow> face" where
  "new_face now oid nm d srv =
     \<lparr>face_id = (if readyState srv = 1 then oid else toString now), name = nm,
      faceDescriptor = d, userId = ''default_user'', imageUrl = None, timestamp = now\<rparr>"

definition reply_faces :: "reply \<Rightarrow> face_entry list" where
  "reply_faces r = (case r of FacesReply fs \<Rightarrow> fs | _ \<Rightarrow> [])"

text \<open>Concrete faces, requests and states on which the model is evaluated.\<close>

definition alice_face :: face where
  "alice_face = \<lparr>face_id = ''1'', name = ''Alice'', faceDescriptor = [0, 0, 0],
                 userId = ''default_user'', imageUrl = None, timestamp = 1000\<rparr>"

definition carol_face :: face where
  "carol_face = \<lparr>face_id = ''3'', name = ''Carol'', faceDescriptor = [1, 0, 0],
                 userId = ''default_user'', imageUrl = None, timestamp = 3000\<rparr>"

definition request_for :: "string \<Rightarrow> descriptor \<Rightarrow> register_body" where
  "request_for nm d = \<lparr>req_name = Some nm, req_faceDescriptor = Some d,
                       req_userId = Some ''default_user'', req_imageUrl = None\<rparr>"

definition naming :: "string \<Rightarrow> component" where
  "naming nm = mounted\<lparr>newPersonName := nm\<rparr>"

text \<open>
  The store holding Alice alone with the component that has loaded it, and the component in
  which Alice's name is typed while a detection is running whose first call has settled.
\<close>

definition alice_loaded :: "server \<times> component" where
  "alice_loaded =
     (memory_server [alice_face], loadRegisteredFaces (memory_server [alice_face]) mounted)"

definition detecting :: "string \<Rightarrow> component" where
  "detecting nm =
     run [StartWebcam True, StartDetection, Settle (Some [[0, 0, 0]])] (naming nm)"

definition two_notifications :: app where
  "two_notifications =
     addNotification 1000 ''Camera stopped'' ''info''
       (addNotification 1000 ''Person removed'' ''success'' app_start)"

section \<open>Properties of the scorer\<close>

text \<open>
  C5: for every route (with a first leg, as every route of the provider has), the score is
  base 75, plus 10 below 15 minutes, minus 10 above 45 minutes, clamped to [50, 95]; a
  route of 600 seconds scores 85 and one of 3600 seconds scores 65. The score is a function
  of the route alone.
\<close>

theorem calculateSafetyScore_spec:
  "legs r = l # ls \<Longrightarrow>
     calculateSafetyScore r = Inr (score_spec (duration_value (duration l)))
     \<and> calculateSafetyScore (route_of_seconds 600) = Inr 85
     \<and> calculateSafetyScore (route_of_seconds 3600) = Inr 65"
  by (simp add: calculateSafetyScore_def score_spec_def route_of_seconds_def Let_def)

theorem calculateSafetyScore_spec_witness:
  "legs (route_of_seconds 1200) = [\<lparr>duration = \<lparr>duration_text = '''', duration_value = 1200\<rparr>\<rparr>]
   \<and> calculateSafetyScore (route_of_seconds 1200) = Inr 75"
  using calculateSafetyScore_spec [of "route_of_seconds 1200"
      "\<lparr>duration = \<lparr>duration_text = '''', duration_value = 1200\<rparr>\<rparr>" "[]"]
  by (simp add: route_of_seconds_def score_spec_def)

text \<open>
  C10: on every route with a first leg the score is one of 65, 75 and 85, and it equals the
  value computed before the clamp, so the clamp to [50, 95] never changes it.
\<close>

theorem calculateSafetyScore_three_values:
  "legs r = l # ls \<Longrightarrow>
     (\<exists>s. calculateSafetyScore r = Inr s \<and> (s = 65 \<or> s = 75 \<or> s = 85)
          \<and> s = 75 + (if duration_value (duration l) / 60 < 15 then 10 else 0)
                   - (if duration_value (duration l) / 60 > 45 then 10 else 0))"
  by (simp add: calculateSafetyScore_def Let_def)

theorem calculateSafetyScore_three_values_witness:
  "legs (route_of_seconds 3600) = [\<lparr>duration = \<lparr>duration_text = '''', duration_value = 3600\<rparr>\<rparr>]
   \<and> (\<exists>s. calculateSafetyScore (route_of_seconds 3600) = Inr s \<and> (s = 65 \<or> s = 75 \<or> s = 85))"
  using calculateSafetyScore_three_values [of "route_of_seconds 3600"
      "\<lparr>duration = \<lparr>duration_text = '''', duration_value = 3600\<rparr>\<rparr>" "[]"]
  by (simp add: route_of_seconds_def)

section \<open>Properties of the descriptor store\<close>

lemmas store_defs = memory_server_def durable_server_def active_faces_def by_user_def
  truthy_string_def truthy_array_def or_else_def or_null_def ok_def failed_def
  post_api_faces_register_def get_api_faces_def get_api_faces_descriptors_def
  delete_api_faces_def entry_of_def descriptor_of_def request_for_def

text \<open>
  C4, as the specification states it, fails: a request whose descriptor is present but
  empty is not rejected. On the in-memory store the request for Alice with the descriptor
  \<open>[]\<close> is answered 200 and a record with the empty descriptor is stored.
\<close>

theorem register_empty_descriptor_counterexample:
  "status (fst (post_api_faces_register 1000 ''oid'' (request_for ''Alice'' [])
       (memory_server []))) = 200
   \<and> map faceDescriptor (inMemoryFaces (snd (post_api_faces_register 1000 ''oid''
       (request_for ''Alice'' []) (memory_server [])))) = [[]]"
  by (simp add: store_defs Let_def)

text \<open>
  C4, amended: the handler answers 400 exactly when the name is absent or the empty string,
  or the descriptor is absent. A rejected request leaves the server unchanged. A request
  that is not rejected appends exactly one record, carrying the request's name and
  descriptor, to the in-memory array when the durable store is not connected, and to the
  durable collection when it is connected and the driver's save completes; when the save
  throws, the answer is 500 and nothing is stored.
\<close>

theorem register_validation:
  "(status (fst (post_api_faces_register now oid body srv)) = 400
      \<longleftrightarrow> (req_name body = None \<or> req_name body = Some [] \<or> req_faceDescriptor body = None))
   \<and> (status (fst (post_api_faces_register now oid body srv)) = 400
      \<longrightarrow> snd (post_api_faces_register now oid body srv) = srv)
   \<and> (status (fst (post_api_faces_register now oid body srv)) \<noteq> 400 \<and> readyState srv \<noteq> 1
      \<longrightarrow> success (fst (post_api_faces_register now oid body srv))
          \<and> (\<exists>f. inMemoryFaces (snd (post_api_faces_register now oid body srv))
                    = inMemoryFaces srv @ [f]
                 \<and> Some (name f) = req_name body
                 \<and> Some (faceDescriptor f) = req_faceDescriptor body)
          \<and> collection (snd (post_api_faces_register now oid body srv)) = collection srv)
   \<and> (status (fst (post_api_faces_register now oid body srv)) \<noteq> 400 \<and> readyState srv = 1
        \<and> driverFault srv = None
      \<longrightarrow> success (fst (post_api_faces_register now oid body srv))
          \<and> (\<exists>f. collection (snd (post_api_faces_register now oid body srv))
                    = collection srv @ [f]
                 \<and> Some (name f) = req_name body
                 \<and> Some (faceDescriptor f) = req_faceDescriptor body)
          \<and> inMemoryFaces (snd (post_api_faces_register now oid body srv)) = inMemoryFaces srv)
   \<and> (status (fst (post_api_faces_register now oid body srv)) \<noteq> 400 \<and> readyState srv = 1
        \<and> driverFault srv \<noteq> None
      \<longrightarrow> status (fst (post_api_faces_register now oid body srv)) = 500
          \<and> snd (post_api_faces_register now oid body srv) = srv)"
  by (cases "req_name body"; cases "req_faceDescriptor body")
     (auto simp add: post_api_faces_register_def truthy_string_def truthy_array_def ok_def
        failed_def Let_def split: option.splits)

theorem register_validation_witness:
  "status (fst (post_api_faces_register 1000 ''oid'' \<lparr>req_name = Some [],
       req_faceDescriptor = Some [0, 0, 0], req_userId = None, req_imageUrl = None\<rparr>
       (memory_server [alice_face]))) = 400
   \<and> snd (post_api_faces_register 1000 ''oid'' \<lparr>req_name = Some [],
       req_faceDescriptor = Some [0, 0, 0], req_userId = None, req_imageUrl = None\<rparr>
       (memory_server [alice_face])) = memory_server [alice_face]
   \<and> status (fst (post_api_faces_register 3000 ''oid'' (request_for ''Carol'' [1, 0, 0])
       (memory_server [alice_face]))) = 200
   \<and> map name (inMemoryFaces (snd (post_api_faces_register 3000 ''oid''
       (request_for ''Carol'' [1, 0, 0]) (memory_server [alice_face])))) = [''Alice'', ''Carol'']"
  using register_validation [of 1000 "''oid''" "\<lparr>req_name = Some [],
       req_faceDescriptor = Some [0, 0, 0], req_userId = None, req_imageUrl = None\<rparr>"
       "memory_server [alice_face]"]
  by (simp add: store_defs Let_def alice_face_def)

text \<open>
  C7, as the specification states it, fails on the durable store: when the driver's
  \<^verbatim>\<open>findByIdAndDelete\<close> throws, as it does for an id it cannot cast, the handler's
  \<^verbatim>\<open>catch\<close> answers 500 with \<^verbatim>\<open>success: false\<close>.
\<close>

theorem delete_driver_error_counterexample:
  "\<not> success (fst (delete_api_faces ''abc''
        (durable_server [] (Some ''Cast to ObjectId failed for value abc''))))
   \<and> status (fst (delete_api_faces ''abc''
        (durable_server [] (Some ''Cast to ObjectId failed for value abc'')))) = 500"
  by (simp add: delete_api_faces_def durable_server_def failed_def)

lemma findByIdAndDelete_absent: "i \<notin> face_id ` set fs \<Longrightarrow> findByIdAndDelete i fs = fs"
  by (induction fs) auto

lemma filter_id_absent: "i \<notin> face_id ` set fs \<Longrightarrow> filter (\<lambda>f. face_id f \<noteq> i) fs = fs"
  by (induction fs) auto

text \<open>
  C7, amended: delete reports success exactly when the store is the in-memory array or the
  driver's call completes, whether or not the id identifies a stored record; the answer is
  then 200, and 500 otherwise. An id that identifies no record of the active store leaves
  the server unchanged.
\<close>

theorem delete_reports_success:
  "(success (fst (delete_api_faces i srv)) \<longleftrightarrow> readyState srv \<noteq> 1 \<or> driverFault srv = None)
   \<and> status (fst (delete_api_faces i srv))
       = (if success (fst (delete_api_faces i srv)) then 200 else 500)
   \<and> (i \<notin> face_id ` set (active_faces srv) \<longrightarrow> snd (delete_api_faces i srv) = srv)"
  by (auto simp add: delete_api_faces_def ok_def failed_def active_faces_def
        findByIdAndDelete_absent filter_id_absent split: option.splits)

theorem delete_reports_success_witness:
  "success (fst (delete_api_faces ''nobody'' (memory_server [alice_face])))
   \<and> snd (delete_api_faces ''nobody'' (memory_server [alice_face])) = memory_server [alice_face]
   \<and> success (fst (delete_api_faces ''nobody'' (durable_server [alice_face] None)))
   \<and> snd (delete_api_faces ''nobody'' (durable_server [alice_face] None))
       = durable_server [alice_face] None"
  using delete_reports_success [of "''nobody''" "memory_server [alice_face]"]
    delete_reports_success [of "''nobody''" "durable_server [alice_face] None"]
  by (simp add: memory_server_def durable_server_def active_faces_def alice_face_def)

lemma sorted_descending:
  "sorted (map (\<lambda>f. - int (g f)) xs) \<Longrightarrow> sorted (rev (map g xs))"
  by (induction xs) (auto simp add: sorted_append)

text \<open>
  The durable path of the listing sorts: its entries are in descending order of timestamp.
\<close>

lemma get_api_faces_durable_newest_first:
  assumes "readyState srv = 1" and "driverFault srv = None"
  shows "sorted (rev (map entry_timestamp (reply_faces (reply (get_api_faces q srv)))))"
proof -
  have "sorted (rev (map timestamp (newest_first (by_user q (collection srv)))))"
    unfolding newest_first_def by (rule sorted_descending) (rule sorted_sort_key)
  moreover have "map entry_timestamp (reply_faces (reply (get_api_faces q srv)))
                   = map timestamp (newest_first (by_user q (collection srv)))"
    using assms by (simp add: get_api_faces_def ok_def reply_faces_def entry_of_def comp_def)
  ultimately show ?thesis by simp
qed

text \<open>
  The in-memory path of the listing does not sort: it returns the user's entries in the
  order of the array, which is the order of registration.
\<close>

lemma get_api_faces_memory_order:
  "readyState srv \<noteq> 1 \<Longrightarrow>
     map entry_timestamp (reply_faces (reply (get_api_faces q srv)))
       = map timestamp (by_user q (inMemoryFaces srv))"
  by (simp add: get_api_faces_def ok_def reply_faces_def entry_of_def comp_def)

text \<open>
  C8 at a failing input: with the in-memory store, Alice registered at time 1000 and Carol
  at time 3000, the listing for \<^verbatim>\<open>default_user\<close> succeeds and returns the entry of time
  1000 before the entry of time 3000, oldest first. The entries carry no descriptor: the type
  of an entry has no such field.
\<close>

theorem list_in_memory_oldest_first:
  "success (get_api_faces (Some ''default_user'')
      (snd (post_api_faces_register 3000 ''b'' (request_for ''Carol'' [1, 0, 0])
         (snd (post_api_faces_register 1000 ''a'' (request_for ''Alice'' [0, 0, 0])
            (memory_server []))))))
   \<and> map entry_timestamp (reply_faces (reply (get_api_faces (Some ''default_user'')
      (snd (post_api_faces_register 3000 ''b'' (request_for ''Carol'' [1, 0, 0])
         (snd (post_api_faces_register 1000 ''a'' (request_for ''Alice'' [0, 0, 0])
            (memory_server []))))))))
     = [1000, 3000]"
  by (simp add: store_defs Let_def reply_faces_def)

theorem list_in_memory_oldest_first_witness:
  "map entry_timestamp (reply_faces (reply (get_api_faces (Some ''default_user'')
      (snd (post_api_faces_register 3000 ''b'' (request_for ''Carol'' [1, 0, 0])
         (snd (post_api_faces_register 1000 ''a'' (request_for ''Alice'' [0, 0, 0])
            (memory_server []))))))))
     \<noteq> [3000, 1000]"
  using list_in_memory_oldest_first by simp

section \<open>Properties of the matcher\<close>

lemmas matcher_defs = recognise_def map_filter_def findBestMatch_def matchDescriptor_def
  references_def euclideanDistance_def

lemma closest_mem: "closest b cs \<in> set (b # cs)"
  by (induction cs arbitrary: b) auto

lemma closest_le: "c \<in> set (b # cs) \<Longrightarrow> distance (closest b cs) \<le> distance c"
proof (induction cs arbitrary: b c)
  case Nil
  then show ?case by simp
next
  case (Cons a cs)
  let ?kept = "if distance a < distance b then a else b"
  have kept: "distance (closest ?kept cs) \<le> distance ?kept"
    using Cons.IH [of ?kept ?kept] by simp
  show ?case
  proof (cases "c \<in> set cs")
    case True
    then show ?thesis using Cons.IH [of c ?kept] by simp
  next
    case False
    then have "c = b \<or> c = a" using Cons.prems by auto
    then show ?thesis using kept by (auto split: if_splits)
  qed
qed

lemma closest_Min: "distance (closest b cs) = Min (distance ` set (b # cs))"
proof (rule sym, rule Min_eqI)
  show "finite (distance ` set (b # cs))" by simp
  show "\<And>y. y \<in> distance ` set (b # cs) \<Longrightarrow> distance (closest b cs) \<le> y"
    using closest_le by blast
  show "distance (closest b cs) \<in> distance ` set (b # cs)"
    using closest_mem by blast
qed

lemma matchDescriptor_Some:
  assumes "references m \<noteq> []"
  shows "\<exists>r. matchDescriptor m probe = Some r \<and> r \<in> set (candidates m probe)
           \<and> distance r = Min (distance ` set (candidates m probe))"
proof -
  obtain c cs where cs: "candidates m probe = c # cs"
    using assms by (cases "candidates m probe") (auto simp add: candidates_def)
  then have "matchDescriptor m probe = Some (closest c cs)"
    by (simp add: matchDescriptor_def candidates_def)
  then show ?thesis using closest_mem [of c cs] closest_Min [of c cs] cs by simp
qed

text \<open>
  C1: for every probe and every matcher with threshold 0.6 over a non-empty set of
  references, the match has the minimum of the distances between the probe and the
  references; when that minimum is at most 0.6 the label is the label of a reference at
  that distance, and otherwise the label is \<^verbatim>\<open>unknown\<close>.
\<close>

theorem findBestMatch_spec:
  assumes "references m \<noteq> []" and "distanceThreshold m = 0.6"
  shows "\<exists>r. findBestMatch m probe = Some r
           \<and> distance r = Min ((\<lambda>(l, d). euclideanDistance d probe) ` set (references m))
           \<and> (distance r \<le> 0.6 \<longrightarrow>
                 (\<exists>d. (label r, d) \<in> set (references m)
                      \<and> euclideanDistance d probe = distance r))
           \<and> (distance r > 0.6 \<longrightarrow> label r = ''unknown'')"
proof -
  obtain b where b: "matchDescriptor m probe = Some b" "b \<in> set (candidates m probe)"
      "distance b = Min (distance ` set (candidates m probe))"
    using matchDescriptor_Some [OF assms(1)] by blast
  have img: "distance ` set (candidates m probe)
               = (\<lambda>(l, d). euclideanDistance d probe) ` set (references m)"
    by (force simp add: candidates_def image_iff)
  obtain d where d: "(label b, d) \<in> set (references m)"
      "euclideanDistance d probe = distance b"
    using b(2) by (auto simp add: candidates_def)
  show ?thesis
  proof (cases "distance b \<le> 0.6")
    case True
    then have "findBestMatch m probe = Some b"
      using b(1) assms(2) by (simp add: findBestMatch_def)
    then show ?thesis using b(3) img d True by auto
  next
    case False
    then have "findBestMatch m probe = Some (FaceMatch ''unknown'' (distance b))"
      using b(1) assms(2) by (simp add: findBestMatch_def)
    then show ?thesis using b(3) img False by auto
  qed
qed

lemma references_matcher_of:
  "references (matcher_of fs) = map (\<lambda>f. (name f, faceDescriptor f)) fs"
  by (induction fs) (simp_all add: references_def matcher_of_def)

theorem findBestMatch_spec_witness:
  "references (matcher_of [alice_face, carol_face]) = [(''Alice'', [0, 0, 0]), (''Carol'', [1, 0, 0])]
   \<and> distanceThreshold (matcher_of [alice_face, carol_face]) = 0.6
   \<and> findBestMatch (matcher_of [alice_face, carol_face]) [1, 0, 0] = Some (FaceMatch ''Carol'' 0)
   \<and> findBestMatch (matcher_of [alice_face, carol_face]) [0, 1, 0] = Some (FaceMatch ''unknown'' 1)"
  using findBestMatch_spec [of "matcher_of [alice_face, carol_face]" "[0, 1, 0]"]
  by (simp add: matcher_defs matcher_of_def alice_face_def carol_face_def)

lemma findBestMatch_label:
  assumes "findBestMatch m probe = Some r"
  shows "label r = ''unknown'' \<or> label r \<in> fst ` set (references m)"
proof -
  obtain b where b: "matchDescriptor m probe = Some b"
    using assms by (auto simp add: findBestMatch_def)
  then have ne: "references m \<noteq> []"
    by (auto simp add: matchDescriptor_def)
  have "b \<in> set (candidates m probe)"
    using matchDescriptor_Some [OF ne, of probe] b by simp
  then have "label b \<in> fst ` set (references m)"
    by (force simp add: candidates_def)
  then show ?thesis using assms b by (auto simp add: findBestMatch_def split: if_splits)
qed

lemma recognise_labels:
  assumes "r \<in> set (recognise (Some m) detections)"
  shows "label r = ''unknown'' \<or> label r \<in> fst ` set (references m)"
proof -
  obtain d where "findBestMatch m d = Some r"
    using assms by (auto simp add: recognise_def map_filter_def)
  then show ?thesis by (rule findBestMatch_label)
qed

lemma euclideanDistance_self: "euclideanDistance d d = 0"
proof -
  have "sum_list (map (\<lambda>(x, y). (x - y)\<^sup>2) (zip d d)) = (0::real)"
    by (induction d) simp_all
  then show ?thesis by (simp add: euclideanDistance_def)
qed

lemma euclideanDistance_nonneg: "0 \<le> euclideanDistance a b"
proof -
  have "0 \<le> sum_list (map (\<lambda>(x, y). (x - y)\<^sup>2) (zip a b))"
    by (rule sum_list_nonneg) auto
  then show ?thesis by (simp add: euclideanDistance_def)
qed

text \<open>
  A probe equal to the descriptor of a stored face is matched at distance 0, under the name
  every face at distance 0 carries.
\<close>

lemma findBestMatch_registered:
  assumes "f \<in> set fs"
    and "\<forall>g \<in> set fs. euclideanDistance (faceDescriptor g) (faceDescriptor f) = 0
            \<longrightarrow> name g = name f"
  shows "findBestMatch (matcher_of fs) (faceDescriptor f) = Some (FaceMatch (name f) 0)"
proof -
  let ?m = "matcher_of fs" and ?p = "faceDescriptor f"
  have ne: "references ?m \<noteq> []"
    using assms(1) by (auto simp add: references_matcher_of)
  obtain b where b: "matchDescriptor ?m ?p = Some b" "b \<in> set (candidates ?m ?p)"
      "distance b = Min (distance ` set (candidates ?m ?p))"
    using matchDescriptor_Some [OF ne] by blast
  have "FaceMatch (name f) 0 \<in> set (candidates ?m ?p)"
    using assms(1)
    by (force simp add: candidates_def references_matcher_of euclideanDistance_self)
  then have "distance b \<le> 0"
    using b(3) by (metis FaceMatch.sel(2) List.finite_set Min_le finite_imageI image_eqI)
  moreover obtain g where g: "g \<in> set fs"
      "b = FaceMatch (name g) (euclideanDistance (faceDescriptor g) ?p)"
    using b(2) by (auto simp add: candidates_def references_matcher_of)
  moreover have "0 \<le> distance b" using g(2) by (simp add: euclideanDistance_nonneg)
  ultimately have "distance b = 0" and "name g = name f"
    using assms(2) by auto
  then have "b = FaceMatch (name f) 0" using g(2) by simp
  then show ?thesis using b(1) by (simp add: findBestMatch_def matcher_of_def)
qed

section \<open>Properties of the face pipeline\<close>

lemmas component_defs = mounted_def naming_def notify_def loadFaceDescriptors_def
  loadRegisteredFaces_def registerFace_def deleteFace_def trim_def is_space_def Let_def

lemmas loop_defs = startWebcam_def startDetection_def stopDetection_def stopWebcam_def
  detectFaces_call_def detectFaces_resume_def clearInterval_def closure_of_def

lemma get_descriptors_reply:
  "reachable_store srv \<Longrightarrow>
     get_api_faces_descriptors (Some ''default_user'') srv
       = ok (DescriptorsReply (map descriptor_of (user_faces srv)))"
  by (auto simp add: get_api_faces_descriptors_def reachable_store_def user_faces_def
        active_faces_def)

text \<open>
  \<^verbatim>\<open>loadFaceDescriptors\<close> replaces the matcher by the one built from the user's stored faces
  when there is at least one, and keeps the matcher it had when there is none.
\<close>

lemma loadFaceDescriptors_faceMatcher:
  "reachable_store srv \<Longrightarrow>
     faceMatcher (loadFaceDescriptors srv c)
       = (if user_faces srv = [] then faceMatcher c else Some (matcher_of (user_faces srv)))"
  by (simp add: loadFaceDescriptors_def get_descriptors_reply ok_def matcher_of_def
        descriptor_of_def Let_def comp_def)

lemma get_faces_success:
  "reachable_store srv \<Longrightarrow>
     \<exists>fs. get_api_faces (Some ''default_user'') srv = ok (FacesReply fs)"
  by (auto simp add: get_api_faces_def reachable_store_def)

lemma loadRegisteredFaces_faceMatcher:
  assumes "reachable_store srv"
  shows "faceMatcher (loadRegisteredFaces srv c)
       = (if user_faces srv = [] then faceMatcher c else Some (matcher_of (user_faces srv)))"
proof -
  obtain fs where fs: "get_api_faces (Some ''default_user'') srv = ok (FacesReply fs)"
    using get_faces_success [OF assms] by blast
  have "faceMatcher (loadRegisteredFaces srv c)
          = faceMatcher (loadFaceDescriptors srv
              (notify (''Loaded '' @ toString (length fs) @ '' registered faces'') ''success''
                 (c\<lparr>isLoading := True, registeredFaces := fs\<rparr>)))"
    by (simp add: loadRegisteredFaces_def fs ok_def Let_def)
  also have "\<dots> = (if user_faces srv = [] then faceMatcher c
                     else Some (matcher_of (user_faces srv)))"
    by (simp add: loadFaceDescriptors_faceMatcher [OF assms] notify_def)
  finally show ?thesis .
qed

lemma deleteFace_result:
  assumes "reachable_store srv"
  shows "fst (deleteFace i (srv, c)) = snd (delete_api_faces i srv)"
    and "faceMatcher (snd (deleteFace i (srv, c)))
           = (if user_faces (snd (delete_api_faces i srv)) = [] then faceMatcher c
              else Some (matcher_of (user_faces (snd (delete_api_faces i srv)))))"
proof -
  have succ: "success (fst (delete_api_faces i srv))"
    using assms by (auto simp add: delete_api_faces_def reachable_store_def ok_def)
  have reach: "reachable_store (snd (delete_api_faces i srv))"
    using assms by (auto simp add: delete_api_faces_def reachable_store_def)
  show "fst (deleteFace i (srv, c)) = snd (delete_api_faces i srv)"
    by (simp add: deleteFace_def Let_def)
  show "faceMatcher (snd (deleteFace i (srv, c)))
           = (if user_faces (snd (delete_api_faces i srv)) = [] then faceMatcher c
              else Some (matcher_of (user_faces (snd (delete_api_faces i srv)))))"
    using succ
    by (simp add: deleteFace_def Let_def loadRegisteredFaces_faceMatcher [OF reach] notify_def)
qed

lemma findByIdAndDelete_subset: "set (findByIdAndDelete i fs) \<subseteq> set fs"
  by (induction fs) auto

lemma user_faces_after_delete:
  "set (user_faces (snd (delete_api_faces i srv))) \<subseteq> set (user_faces srv)"
  using findByIdAndDelete_subset [of i "collection srv"]
  by (auto simp add: delete_api_faces_def user_faces_def active_faces_def by_user_def
        split: option.splits)

text \<open>On the in-memory store the deletion removes every record with that id.\<close>

lemma user_faces_after_delete_memory:
  "readyState srv \<noteq> 1 \<Longrightarrow>
     user_faces (snd (delete_api_faces i srv)) = filter (\<lambda>g. face_id g \<noteq> i) (user_faces srv)"
  by (auto simp add: delete_api_faces_def user_faces_def active_faces_def by_user_def
        intro: filter_cong)

lemma registerFace_refs:
  "videoRef (snd (registerFace now oid det (srv, c))) = videoRef c
   \<and> canvasRef (snd (registerFace now oid det (srv, c))) = canvasRef c
   \<and> modelsLoaded (snd (registerFace now oid det (srv, c))) = modelsLoaded c
   \<and> inFlight (snd (registerFace now oid det (srv, c))) = inFlight c
   \<and> liveIntervals (snd (registerFace now oid det (srv, c))) = liveIntervals c"
  by (simp add: registerFace_def loadRegisteredFaces_def loadFaceDescriptors_def notify_def
        Let_def split: option.splits reply.splits)

text \<open>
  A detection started with no call pending draws, when its first call settles, the labels
  that the matcher of the current render gives.
\<close>

lemma fresh_loop_draws:
  assumes "videoRef c" and "modelsLoaded c" and "canvasRef c" and "inFlight c = []"
    and "detections \<noteq> []"
  shows "canvas (run [StartDetection, Settle (Some detections)] c)
           = Some (recognise (faceMatcher c) detections)"
  using assms
  by (simp add: startDetection_def detectFaces_call_def detectFaces_resume_def closure_of_def
        Let_def)

lemma deleteFace_refs:
  "videoRef (snd (deleteFace i (srv, c))) = videoRef c
   \<and> canvasRef (snd (deleteFace i (srv, c))) = canvasRef c
   \<and> modelsLoaded (snd (deleteFace i (srv, c))) = modelsLoaded c
   \<and> inFlight (snd (deleteFace i (srv, c))) = inFlight c
   \<and> liveIntervals (snd (deleteFace i (srv, c))) = liveIntervals c"
  by (simp add: deleteFace_def loadRegisteredFaces_def loadFaceDescriptors_def notify_def
        Let_def split: option.splits reply.splits)

lemma findByIdAndDelete_distinct:
  "distinct (map face_id fs) \<Longrightarrow>
     findByIdAndDelete i fs = filter (\<lambda>g. face_id g \<noteq> i) fs"
  by (induction fs) (auto simp add: filter_id_absent)

text \<open>
  The deletion removes from the user's records exactly those with that id: on the in-memory
  store always, on the durable store when the driver's call completes and the ids of the
  collection are distinct.
\<close>

lemma user_faces_after_delete_filter:
  assumes "readyState srv \<noteq> 1
             \<or> (driverFault srv = None \<and> distinct (map face_id (collection srv)))"
  shows "user_faces (snd (delete_api_faces i srv))
           = filter (\<lambda>g. face_id g \<noteq> i) (user_faces srv)"
proof (cases "readyState srv = 1")
  case False
  then show ?thesis by (rule user_faces_after_delete_memory)
next
  case True
  then have "driverFault srv = None" and "distinct (map face_id (collection srv))"
    using assms by auto
  then show ?thesis
    using True
    by (auto simp add: delete_api_faces_def user_faces_def active_faces_def by_user_def
          findByIdAndDelete_distinct intro: filter_cong)
qed

text \<open>
  C2 at a failing input: the in-memory store holds Alice alone and the component has loaded
  her into its matcher, which matches her descriptor to \<^verbatim>\<open>Alice\<close>. Deleting her succeeds
  and empties the store; \<^verbatim>\<open>loadFaceDescriptors\<close> then receives an empty list and sets
  nothing, so the component keeps the matcher built before the deletion: her descriptor,
  reused as a probe, is still matched to \<^verbatim>\<open>Alice\<close>, also by a detection loop started after
  the deletion.
\<close>

theorem deleteFace_last_record_keeps_matcher:
  "recognise (faceMatcher (snd alice_loaded)) [[0, 0, 0]] = [FaceMatch ''Alice'' 0]
   \<and> success (fst (delete_api_faces ''1'' (fst alice_loaded)))
   \<and> active_faces (fst (deleteFace ''1'' alice_loaded)) = []
   \<and> faceMatcher (snd (deleteFace ''1'' alice_loaded)) = Some (matcher_of [alice_face])
   \<and> recognise (faceMatcher (snd (deleteFace ''1'' alice_loaded))) [[0, 0, 0]]
       = [FaceMatch ''Alice'' 0]
   \<and> canvas (run [StartDetection, Settle (Some [[0, 0, 0]])]
       (snd (deleteFace ''1'' alice_loaded))) = Some [FaceMatch ''Alice'' 0]"
  by (simp add: alice_loaded_def store_defs component_defs matcher_defs loop_defs
      matcher_of_def alice_face_def)

text \<open>
  When a record of the user remains, the deletion does rebuild the matcher, from exactly the
  records with another id: a name other than \<^verbatim>\<open>unknown\<close> that none of them carries is
  returned by no match against it, nor drawn by a detection loop started after the deletion
  with no call pending.
\<close>

lemma deleteFace_rebuilds_matcher:
  assumes store: "readyState srv \<noteq> 1
             \<or> (driverFault srv = None \<and> distinct (map face_id (collection srv)))"
    and remains: "filter (\<lambda>g. face_id g \<noteq> i) (user_faces srv) \<noteq> []"
    and nm: "nm \<noteq> ''unknown''"
    and others: "\<forall>g \<in> set (user_faces srv). face_id g \<noteq> i \<longrightarrow> name g \<noteq> nm"
  shows "user_faces (fst (deleteFace i (srv, c)))
           = filter (\<lambda>g. face_id g \<noteq> i) (user_faces srv)
     \<and> faceMatcher (snd (deleteFace i (srv, c)))
          = Some (matcher_of (filter (\<lambda>g. face_id g \<noteq> i) (user_faces srv)))
     \<and> nm \<notin> label ` set (recognise (faceMatcher (snd (deleteFace i (srv, c)))) detections)
     \<and> (videoRef c \<and> modelsLoaded c \<and> canvasRef c \<and> inFlight c = [] \<and> detections \<noteq> []
        \<longrightarrow> (\<exists>drawn. canvas (run [StartDetection, Settle (Some detections)]
                                (snd (deleteFace i (srv, c)))) = Some drawn
                    \<and> nm \<notin> label ` set drawn))"
proof -
  let ?rest = "filter (\<lambda>g. face_id g \<noteq> i) (user_faces srv)"
  let ?c' = "snd (deleteFace i (srv, c))"
  have reach: "reachable_store srv"
    using store by (auto simp add: reachable_store_def)
  have rest: "user_faces (snd (delete_api_faces i srv)) = ?rest"
    by (rule user_faces_after_delete_filter [OF store])
  have srv': "user_faces (fst (deleteFace i (srv, c))) = ?rest"
    using deleteFace_result(1) [OF reach, of i c] rest by simp
  have m: "faceMatcher ?c' = Some (matcher_of ?rest)"
    using deleteFace_result(2) [OF reach, of i c] rest remains by simp
  have "label r \<noteq> nm" if "r \<in> set (recognise (Some (matcher_of ?rest)) detections)" for r
  proof -
    have "label r = ''unknown'' \<or> label r \<in> name ` set ?rest"
      using recognise_labels [OF that] by (force simp add: references_matcher_of)
    then show ?thesis using nm others by auto
  qed
  then have absent: "nm \<notin> label ` set (recognise (faceMatcher ?c') detections)"
    using m by (metis imageE)
  have "canvas (run [StartDetection, Settle (Some detections)] ?c')
          = Some (recognise (faceMatcher ?c') detections)"
    if "videoRef c" and "modelsLoaded c" and "canvasRef c" and "inFlight c = []"
      and "detections \<noteq> []"
    using deleteFace_refs [of i srv c] that by (intro fresh_loop_draws) simp_all
  then show ?thesis using srv' m absent by simp
qed

lemma trim_nonempty: "trim s \<noteq> [] \<Longrightarrow> s \<noteq> []"
  by (auto simp add: trim_def)

lemma register_request:
  assumes "nm \<noteq> []" and "reachable_store srv"
  shows "success (fst (post_api_faces_register now oid (request_for nm d) srv))"
    and "reachable_store (snd (post_api_faces_register now oid (request_for nm d) srv))"
    and "user_faces (snd (post_api_faces_register now oid (request_for nm d) srv))
          = user_faces srv @ [new_face now oid nm d srv]"
  using assms
  by (auto simp add: post_api_faces_register_def truthy_string_def truthy_array_def ok_def
        Let_def reachable_store_def user_faces_def active_faces_def by_user_def or_else_def
        or_null_def new_face_def request_for_def)

lemma registerFace_result:
  assumes "trim (newPersonName c) \<noteq> []" and "videoRef c" and "modelsLoaded c"
    and "reachable_store srv"
  shows "user_faces (fst (registerFace now oid (Some d) (srv, c)))
           = user_faces srv @ [new_face now oid (newPersonName c) d srv]"
    and "faceMatcher (snd (registerFace now oid (Some d) (srv, c)))
           = Some (matcher_of (user_faces (fst (registerFace now oid (Some d) (srv, c)))))"
proof -
  let ?res = "post_api_faces_register now oid (request_for (newPersonName c) d) srv"
  have nm: "newPersonName c \<noteq> []" using assms(1) by (rule trim_nonempty)
  note req = register_request [OF nm assms(4), of now oid d]
  have fst_eq: "fst (registerFace now oid (Some d) (srv, c)) = snd ?res"
    using assms(1-3) req(1)
    by (simp add: registerFace_def Let_def notify_def request_for_def [symmetric])
  show "user_faces (fst (registerFace now oid (Some d) (srv, c)))
           = user_faces srv @ [new_face now oid (newPersonName c) d srv]"
    using fst_eq req(3) by simp
  have "faceMatcher (snd (registerFace now oid (Some d) (srv, c)))
          = (if user_faces (snd ?res) = [] then faceMatcher c
             else Some (matcher_of (user_faces (snd ?res))))"
    using assms(1-3) req(1)
    by (simp add: registerFace_def Let_def loadRegisteredFaces_faceMatcher [OF req(2)]
          notify_def request_for_def [symmetric])
  then show "faceMatcher (snd (registerFace now oid (Some d) (srv, c)))
           = Some (matcher_of (user_faces (fst (registerFace now oid (Some d) (srv, c)))))"
    using fst_eq req(3) by simp
qed

text \<open>
  For every registration that passes the component's checks (a name that is not blank, the
  video element and the models ready, a face detected) while the store answers, the new
  record is appended to the user's records and, before \<^verbatim>\<open>registerFace\<close> returns, the
  matcher of the component's state is the one built from the user's full list of records. A
  match of the just-registered descriptor against it returns the new record's name at
  distance 0, and a detection loop started after the registration, with no call pending,
  draws that label when its first call settles on that descriptor. The last hypothesis
  keeps the result independent of how the matcher breaks a tie at distance 0.
\<close>

lemma registerFace_rebuilds_matcher:
  assumes "trim (newPersonName c) \<noteq> []" and "videoRef c" and "modelsLoaded c"
    and "reachable_store srv"
    and "\<forall>g \<in> set (user_faces srv). euclideanDistance (faceDescriptor g) d = 0
            \<longrightarrow> name g = newPersonName c"
  shows "user_faces (fst (registerFace now oid (Some d) (srv, c)))
           = user_faces srv @ [new_face now oid (newPersonName c) d srv]
     \<and> faceMatcher (snd (registerFace now oid (Some d) (srv, c)))
           = Some (matcher_of (user_faces (fst (registerFace now oid (Some d) (srv, c)))))
     \<and> recognise (faceMatcher (snd (registerFace now oid (Some d) (srv, c)))) [d]
           = [FaceMatch (newPersonName c) 0]
     \<and> (canvasRef c \<and> inFlight c = []
        \<longrightarrow> canvas (run [StartDetection, Settle (Some [d])]
                      (snd (registerFace now oid (Some d) (srv, c))))
              = Some [FaceMatch (newPersonName c) 0])"
proof -
  let ?f = "new_face now oid (newPersonName c) d srv"
  let ?fs = "user_faces srv @ [?f]"
  let ?c' = "snd (registerFace now oid (Some d) (srv, c))"
  note res = registerFace_result [OF assms(1-4), of now oid d]
  note refs = registerFace_refs [of now oid "Some d" srv c]
  have "findBestMatch (matcher_of ?fs) (faceDescriptor ?f) = Some (FaceMatch (name ?f) 0)"
  proof (rule findBestMatch_registered)
    show "?f \<in> set ?fs" by simp
    show "\<forall>g \<in> set ?fs. euclideanDistance (faceDescriptor g) (faceDescriptor ?f) = 0
            \<longrightarrow> name g = name ?f"
      using assms(5) by (auto simp add: new_face_def)
  qed
  then have "recognise (Some (matcher_of ?fs)) [d] = [FaceMatch (newPersonName c) 0]"
    by (simp add: recognise_def map_filter_def new_face_def)
  then have matched: "recognise (faceMatcher ?c') [d] = [FaceMatch (newPersonName c) 0]"
    using res by simp
  have "canvas (run [StartDetection, Settle (Some [d])] ?c')
          = Some [FaceMatch (newPersonName c) 0]"
    if "canvasRef c" and "inFlight c = []"
  proof -
    have "canvas (run [StartDetection, Settle (Some [d])] ?c')
            = Some (recognise (faceMatcher ?c') [d])"
      using refs assms(2,3) that by (intro fresh_loop_draws) simp_all
    then show ?thesis using matched by simp
  qed
  then show ?thesis using res matched by simp
qed

subsection \<open>The detection loop\<close>

text \<open>
  C6, as the specification states it, fails on both counts. After the camera and the
  detection are started, two firings of the interval leave three model calls in flight.
  After the camera is stopped no interval is live and the stream is released, yet a call
  that settles afterwards still replaces the detected faces.
\<close>

theorem detection_loop_counterexample:
  "length (inFlight (run [StartWebcam True, StartDetection, Tick 1, Tick 1] mounted)) = 3
   \<and> \<not> streamRef (run [StartWebcam True, StartDetection, StopWebcam] mounted)
   \<and> \<not> isDetecting (run [StartWebcam True, StartDetection, StopWebcam] mounted)
   \<and> liveIntervals (run [StartWebcam True, StartDetection, StopWebcam] mounted) = []
   \<and> detectedFaces (run [StartWebcam True, StartDetection, StopWebcam] mounted) = []
   \<and> detectedFaces (run [StartWebcam True, StartDetection, StopWebcam,
        Settle (Some [[0, 0, 0]])] mounted) = [[0, 0, 0]]"
  by (simp add: loop_defs mounted_def notify_def Let_def recognise_def)

lemma map_of_cleared: "map_of (filter (\<lambda>p. fst p \<noteq> k) ps) k = None"
  by (induction ps) auto

text \<open>
  C3 at a failing input: the in-memory store is empty, the detection is running and its first
  call has settled. Registering Alice succeeds, stores her record and rebuilds the matcher
  of the component's state, which matches the registered descriptor to \<^verbatim>\<open>Alice\<close>. The
  running interval keeps calling the closure of the render that started it, which holds no
  matcher: on the next tick the call settles on that descriptor and no label is drawn. Only
  a detection stopped and started again draws \<^verbatim>\<open>Alice\<close>.
\<close>

theorem registerFace_running_loop_keeps_closure:
  "map name (user_faces (fst (registerFace 2000 ''oid'' (Some [0, 0, 0])
       (memory_server [], detecting ''Alice'')))) = [''Alice'']
   \<and> recognise (faceMatcher (snd (registerFace 2000 ''oid'' (Some [0, 0, 0])
       (memory_server [], detecting ''Alice'')))) [[0, 0, 0]] = [FaceMatch ''Alice'' 0]
   \<and> canvas (run [Tick 1, Settle (Some [[0, 0, 0]])]
       (snd (registerFace 2000 ''oid'' (Some [0, 0, 0])
          (memory_server [], detecting ''Alice'')))) = Some []
   \<and> canvas (run [StopDetection, StartDetection, Settle (Some [[0, 0, 0]])]
       (snd (registerFace 2000 ''oid'' (Some [0, 0, 0])
          (memory_server [], detecting ''Alice'')))) = Some [FaceMatch ''Alice'' 0]"
  by (simp add: detecting_def store_defs component_defs matcher_defs loop_defs user_faces_def)

theorem registerFace_running_loop_keeps_closure_witness:
  "canvas (run [Tick 1, Settle (Some [[0, 0, 0]])]
       (snd (registerFace 2000 ''oid'' (Some [0, 0, 0])
          (memory_server [], detecting ''Alice''))))
     \<noteq> Some (recognise (faceMatcher (snd (registerFace 2000 ''oid'' (Some [0, 0, 0])
          (memory_server [], detecting ''Alice'')))) [[0, 0, 0]])"
  using registerFace_running_loop_keeps_closure by simp

text \<open>
  The same holds for a deletion: a loop running while Alice is deleted keeps the matcher
  built before, and its next call still draws \<^verbatim>\<open>Alice\<close> for her descriptor, though Carol
  remains and the matcher of the component's state has been rebuilt without Alice.
\<close>

lemma deleteFace_running_loop_keeps_closure:
  "recognise (faceMatcher (snd (deleteFace ''1''
      (memory_server [alice_face, carol_face],
       run [StartWebcam True, StartDetection]
         (loadRegisteredFaces (memory_server [alice_face, carol_face]) mounted)))))
      [[0, 0, 0]] = [FaceMatch ''unknown'' 1]
   \<and> canvas (run [Settle (Some [[0, 0, 0]]), Tick 1, Settle (Some [[0, 0, 0]])]
       (snd (deleteFace ''1''
          (memory_server [alice_face, carol_face],
           run [StartWebcam True, StartDetection]
             (loadRegisteredFaces (memory_server [alice_face, carol_face]) mounted)))))
     = Some [FaceMatch ''Alice'' 0]"
  by (simp add: store_defs component_defs matcher_defs loop_defs alice_face_def carol_face_def)

text \<open>
  C6, amended: every firing of a live interval with the video element and the canvas set
  and the models loaded starts a new model call, whatever number of calls is in flight; an
  interval that is not live starts nothing; \<^verbatim>\<open>stopDetection\<close>, and \<^verbatim>\<open>stopWebcam\<close> on an
  active camera, clear the interval the component holds, so that it fires no more; and the
  result of a call in flight is applied when it settles, whether or not the camera or the
  loop has been stopped since.
\<close>

theorem detection_loop_behaviour:
  "(map_of (liveIntervals c) h = Some cl \<and> videoRef c \<and> cl_modelsLoaded cl \<and> canvasRef c
      \<longrightarrow> inFlight (step (Tick h) c) = inFlight c @ [cl_faceMatcher cl])
   \<and> (map_of (liveIntervals c) h = None \<longrightarrow> step (Tick h) c = c)
   \<and> (detectionIntervalRef c = Some h
      \<longrightarrow> map_of (liveIntervals (step StopDetection c)) h = None
          \<and> step (Tick h) (step StopDetection c) = step StopDetection c)
   \<and> (detectionIntervalRef c = Some h \<and> streamRef c
      \<longrightarrow> map_of (liveIntervals (step StopWebcam c)) h = None
          \<and> step (Tick h) (step StopWebcam c) = step StopWebcam c)
   \<and> (inFlight c = fm # pending \<and> detections \<noteq> []
      \<longrightarrow> detectedFaces (step (Settle (Some detections)) c) = detections
          \<and> canvas (step (Settle (Some detections)) c) = Some (recognise fm detections)
          \<and> inFlight (step (Settle (Some detections)) c) = pending)"
  by (auto simp add: detectFaces_call_def detectFaces_resume_def stopDetection_def
        stopWebcam_def clearInterval_def notify_def Let_def map_of_cleared)

theorem detection_loop_behaviour_witness:
  "map fst (liveIntervals (run [StartWebcam True, StartDetection] mounted)) = [1]
   \<and> length (inFlight (run [StartWebcam True, StartDetection] mounted)) = 1
   \<and> length (inFlight (step (Tick 1) (run [StartWebcam True, StartDetection] mounted))) = 2
   \<and> liveIntervals (step StopDetection (run [StartWebcam True, StartDetection] mounted)) = []
   \<and> detectedFaces (step (Settle (Some [[1, 0, 0]]))
        (step StopDetection (run [StartWebcam True, StartDetection] mounted))) = [[1, 0, 0]]"
  using detection_loop_behaviour [of "run [StartWebcam True, StartDetection] mounted" 1
      "closure_of mounted" None "[]" "[[1, 0, 0]]"]
  by (simp add: loop_defs mounted_def notify_def Let_def recognise_def)

section \<open>Properties of the notification bridge\<close>

text \<open>
  C9 at a failing input: two notifications added at the same clock reading 1000 get the same
  id. When the first timeout fires at time 6000 its callback removes both entries, while the
  timeout of the second entry is still pending.
\<close>

theorem notification_same_id_removed:
  "map message (notifications two_notifications) = [''Person removed'', ''Camera stopped'']
   \<and> timeouts two_notifications = [(6000, 1000), (6000, 1000)]
   \<and> notifications (fire_timeout 6000 two_notifications) = []
   \<and> timeouts (fire_timeout 6000 two_notifications) = [(6000, 1000)]"
  by (simp add: two_notifications_def addNotification_def app_start_def fire_timeout_def
      expire_def)

text \<open>
  Every notification gets a timeout due 5000 ms after its clock reading, and a callback
  removes exactly the entry it was set for when the ids of the pending entries are distinct.
\<close>

lemma addNotification_timeout:
  "timeouts (addNotification now msg ty a) = timeouts a @ [(now + 5000, now)]
   \<and> notifications (addNotification now msg ty a)
       = notifications a @ [\<lparr>notif_id = now, message = msg, notif_type = ty\<rparr>]
   \<and> spoken (addNotification now msg ty a) = spoken a @ [msg]"
  by (simp add: addNotification_def)

lemma expire_distinct:
  assumes "distinct (map notif_id (notifications a))" and "n \<in> set (notifications a)"
  shows "notifications (expire (notif_id n) a) = remove1 n (notifications a)"
proof -
  have "distinct (map notif_id ns) \<Longrightarrow> n \<in> set ns \<Longrightarrow>
          filter (\<lambda>m. notif_id m \<noteq> notif_id n) ns = remove1 n ns" for ns
  proof (induction ns)
    case Nil
    then show ?case by simp
  next
    case (Cons x ns)
    show ?case
    proof (cases "x = n")
      case True
      then have "\<forall>m \<in> set ns. notif_id m \<noteq> notif_id n"
        using Cons.prems(1) by (auto simp add: image_iff)
      then show ?thesis using True by simp
    next
      case False
      then show ?thesis using Cons by auto
    qed
  qed
  then show ?thesis using assms by (simp add: expire_def)
qed

end
